theory Spec2Isabelle
  imports Complex_Main
begin

section \<open>JavaScript values\<close>

text \<open>
  A JavaScript number is modelled as an exact rational, or \<open>NaN\<close>. The binary rounding of
  IEEE doubles, the infinities and the sign of zero are not modelled: every arithmetic
  step below is exact. \<open>undefined\<close> is \<open>None\<close> of an option type (\<open>null\<close> is not told
  apart from it), and an arithmetic operand that is \<open>undefined\<close> converts to \<open>NaN\<close>, as
  \<open>ToNumber\<close> does.
\<close>

datatype jsnum = Num rat | NaN

definition to_num :: "rat option \<Rightarrow> jsnum" where
  "to_num v = (case v of None \<Rightarrow> NaN | Some r \<Rightarrow> Num r)"

text \<open>The nullish default \<open>v ?? d\<close>.\<close>

definition nullish :: "'a option \<Rightarrow> 'a \<Rightarrow> 'a" where
  "nullish v d = (case v of None \<Rightarrow> d | Some x \<Rightarrow> x)"

fun jmul :: "jsnum \<Rightarrow> jsnum \<Rightarrow> jsnum" where
  "jmul (Num a) (Num b) = Num (a * b)"
| "jmul _ _ = NaN"

fun jadd :: "jsnum \<Rightarrow> jsnum \<Rightarrow> jsnum" where
  "jadd (Num a) (Num b) = Num (a + b)"
| "jadd _ _ = NaN"

fun jsub :: "jsnum \<Rightarrow> jsnum \<Rightarrow> jsnum" where
  "jsub (Num a) (Num b) = Num (a - b)"
| "jsub _ _ = NaN"

text \<open>Division; its only use below has the literal divisor 100.\<close>

fun jdiv :: "jsnum \<Rightarrow> jsnum \<Rightarrow> jsnum" where
  "jdiv (Num a) (Num b) = Num (a / b)"
| "jdiv _ _ = NaN"

text \<open>Comparisons: any comparison with \<open>NaN\<close> is false.\<close>

fun jge :: "jsnum \<Rightarrow> jsnum \<Rightarrow> bool" where
  "jge (Num a) (Num b) = (a \<ge> b)"
| "jge _ _ = False"

fun jle :: "jsnum \<Rightarrow> jsnum \<Rightarrow> bool" where
  "jle (Num a) (Num b) = (a \<le> b)"
| "jle _ _ = False"

fun jgt :: "jsnum \<Rightarrow> jsnum \<Rightarrow> bool" where
  "jgt (Num a) (Num b) = (a > b)"
| "jgt _ _ = False"

fun jlt :: "jsnum \<Rightarrow> jsnum \<Rightarrow> bool" where
  "jlt (Num a) (Num b) = (a < b)"
| "jlt _ _ = False"

text \<open>\<open>Math.round\<close>: the nearest integer, a tie going towards plus infinity.\<close>

definition math_round :: "rat \<Rightarrow> rat" where
  "math_round x = of_int \<lfloor>x + 1 / 2\<rfloor>"

fun jround :: "jsnum \<Rightarrow> jsnum" where
  "jround (Num a) = Num (math_round a)"
| "jround NaN = NaN"

text \<open>\<open>Math.max\<close> of two arguments: \<open>NaN\<close> as soon as one of them is.\<close>

fun jmax :: "jsnum \<Rightarrow> jsnum \<Rightarrow> jsnum" where
  "jmax (Num a) (Num b) = Num (max a b)"
| "jmax _ _ = NaN"

text \<open>
  \<open>Number(x.toFixed(f))\<close>: \<open>toFixed\<close> works on the absolute value, picks the integer \<open>n\<close>
  with \<open>n / 10^f\<close> nearest to it (the larger \<open>n\<close> on a tie), and switches to the plain
  string of the number from \<open>10^21\<close> on, which \<open>Number\<close> reads back unchanged.
\<close>

definition toFixed_abs :: "nat \<Rightarrow> rat \<Rightarrow> rat" where
  "toFixed_abs f y = (if y \<ge> 10 ^ 21 then y else of_int \<lfloor>y * 10 ^ f + 1 / 2\<rfloor> / 10 ^ f)"

definition toFixed :: "nat \<Rightarrow> rat \<Rightarrow> rat" where
  "toFixed f x = (if x < 0 then - toFixed_abs f (- x) else toFixed_abs f x)"

fun jfixed :: "nat \<Rightarrow> jsnum \<Rightarrow> jsnum" where
  "jfixed f (Num a) = Num (toFixed f a)"
| "jfixed f NaN = NaN"

text \<open>
  A thrown value: an \<open>Error\<close> object (or a subclass such as \<open>TypeError\<close>) with its message,
  or a value that is not an \<open>Error\<close>, with its \<open>String(...)\<close> form.
\<close>

datatype thrown = JsError string | NonError string

text \<open>Truthiness of an optional string: \<open>undefined\<close> and the empty string are falsy.\<close>

definition truthy :: "string option \<Rightarrow> bool" where
  "truthy v = (case v of None \<Rightarrow> False | Some s \<Rightarrow> s \<noteq> [])"

text \<open>\<open>recommendations.join(sep)\<close>.\<close>

fun join :: "string \<Rightarrow> string list \<Rightarrow> string" where
  "join sep [] = []"
| "join sep [x] = x"
| "join sep (x # y # ys) = x @ sep @ join sep (y # ys)"

text \<open>
  \<open>Array.prototype.sort(cmp)\<close>: a stable sort (ECMAScript 2019), here by insertion from the
  right. An element moves behind its right neighbour only when the comparator's answer
  is positive; \<open>NaN\<close> counts as zero.
\<close>

fun positive :: "jsnum \<Rightarrow> bool" where
  "positive (Num r) = (r > 0)"
| "positive NaN = False"

fun sort_insert :: "('a \<Rightarrow> 'a \<Rightarrow> jsnum) \<Rightarrow> 'a \<Rightarrow> 'a list \<Rightarrow> 'a list" where
  "sort_insert cmp x [] = [x]"
| "sort_insert cmp x (y # ys) =
     (if positive (cmp x y) then y # sort_insert cmp x ys else x # y # ys)"

fun array_sort :: "('a \<Rightarrow> 'a \<Rightarrow> jsnum) \<Rightarrow> 'a list \<Rightarrow> 'a list" where
  "array_sort cmp [] = []"
| "array_sort cmp (x # xs) = sort_insert cmp x (array_sort cmp xs)"

text \<open>\<open>Array.prototype.map\<close> with a callback that may throw: the first throw ends the run.\<close>

fun array_map :: "('a \<Rightarrow> thrown + 'b) \<Rightarrow> 'a list \<Rightarrow> thrown + 'b list" where
  "array_map f [] = Inr []"
| "array_map f (x # xs) =
     (case f x of
        Inl e \<Rightarrow> Inl e
      | Inr y \<Rightarrow> (case array_map f xs of Inl e \<Rightarrow> Inl e | Inr ys \<Rightarrow> Inr (y # ys)))"

section \<open>Data model (search-console.ts, schemas.ts)\<close>

text \<open>\<open>SearchAnalyticsRow\<close>: every field is optional.\<close>

record search_row =
  keys :: "string list option"
  clicks :: "rat option"
  impressions :: "rat option"
  ctr :: "rat option"
  position :: "rat option"

datatype opportunity_level = High | Medium | Low

text \<open>
  \<open>QuickWin\<close>. The field \<open>impressions\<close> copies the row's field and is named \<open>qw_impressions\<close>
  here, since a record field name cannot be shared.
\<close>

record quick_win =
  query :: string
  page :: string
  currentPosition :: rat
  qw_impressions :: "rat option"
  currentClicks :: rat
  currentCtr :: jsnum
  potentialClicks :: jsnum
  additionalClicks :: jsnum
  estimatedValue :: jsnum
  opportunity :: opportunity_level
  recommendation :: string

text \<open>\<open>Partial<QuickWinsThresholds>\<close>.\<close>

record thresholds =
  minImpressions :: "rat option"
  maxCtr :: "rat option"
  positionRangeMin :: "rat option"
  positionRangeMax :: "rat option"
  targetCtr :: "rat option"
  estimatedClickValue :: "rat option"
  conversionRate :: "rat option"

text \<open>The service object: the state that its methods can read and write through \<open>this\<close>.\<close>

datatype auth_client = AuthClient nat

record service =
  cachedAuthClient :: "auth_client option"
  hasWriteAccess :: bool

section \<open>Quick wins detection (search-console.ts, detectQuickWins)\<close>

text \<open>The thresholds after destructuring with the defaults of \<open>detectQuickWins\<close>.\<close>

definition no_thresholds :: thresholds where
  "no_thresholds = \<lparr>minImpressions = None, maxCtr = None, positionRangeMin = None,
     positionRangeMax = None, targetCtr = None, estimatedClickValue = None,
     conversionRate = None\<rparr>"

definition minImpressions_of :: "thresholds \<Rightarrow> rat" where
  "minImpressions_of t = nullish (minImpressions t) 50"

definition maxCtr_of :: "thresholds \<Rightarrow> rat" where
  "maxCtr_of t = nullish (maxCtr t) 2"

definition positionRangeMin_of :: "thresholds \<Rightarrow> rat" where
  "positionRangeMin_of t = nullish (positionRangeMin t) 4"

definition positionRangeMax_of :: "thresholds \<Rightarrow> rat" where
  "positionRangeMax_of t = nullish (positionRangeMax t) 10"

definition targetCtr_of :: "thresholds \<Rightarrow> rat" where
  "targetCtr_of t = nullish (targetCtr t) 5"

definition estimatedClickValue_of :: "thresholds \<Rightarrow> rat" where
  "estimatedClickValue_of t = nullish (estimatedClickValue t) 1"

definition conversionRate_of :: "thresholds \<Rightarrow> rat" where
  "conversionRate_of t = nullish (conversionRate t) (3 / 100)"

text \<open>\<open>generateRecommendation(position, ctr, impressions)\<close>.\<close>

definition generateRecommendation :: "service \<Rightarrow> jsnum \<Rightarrow> jsnum \<Rightarrow> jsnum \<Rightarrow> string" where
  "generateRecommendation this pos c imp =
     (let recommendations =
        (if jge pos (Num 4) \<and> jle pos (Num 6)
           then [''Improve content depth and relevance to reach top 3'']
         else if jgt pos (Num 6) \<and> jle pos (Num 10)
           then [''Focus on on-page SEO and internal linking'']
         else [])
        @ (if jlt c (Num 1)
             then [''Optimize title tag and meta description for higher CTR''] else [])
        @ (if jge imp (Num 1000)
             then [''High-volume keyword - prioritize optimization''] else [])
      in if length recommendations > 0 then join ''. '' recommendations
         else ''Review content for optimization opportunities'')"

text \<open>The callback of \<open>rows.filter\<close>.\<close>

definition row_included :: "thresholds \<Rightarrow> search_row \<Rightarrow> bool" where
  "row_included t row =
     (let impressions' = nullish (impressions row) 0;
          ctr' = nullish (ctr row) 0 * 100;
          position' = nullish (position row) 0
      in impressions' \<ge> minImpressions_of t \<and> ctr' \<le> maxCtr_of t
         \<and> position' \<ge> positionRangeMin_of t \<and> position' \<le> positionRangeMax_of t)"

text \<open>The cut-offs of the three opportunity levels.\<close>

definition opportunity_of :: "jsnum \<Rightarrow> opportunity_level" where
  "opportunity_of additional =
     (if jge additional (Num 100) then High
      else if jge additional (Num 25) then Medium
      else Low)"

text \<open>
  The callback of \<open>.map\<close>. It reads \<open>row.impressions\<close>, \<open>row.ctr\<close> and \<open>row.position\<close> without
  a default; \<open>position.toFixed(1)\<close> throws a \<open>TypeError\<close> when the position is \<open>undefined\<close>.
\<close>

definition to_quick_win :: "service \<Rightarrow> thresholds \<Rightarrow> search_row \<Rightarrow> thrown + quick_win" where
  "to_quick_win this t row =
     (let impressions' = impressions row;
          currentClicks' = nullish (clicks row) 0;
          currentCtr' = jmul (to_num (ctr row)) (Num 100);
          position' = position row;
          potentialClicks' =
            jround (jdiv (jmul (to_num impressions') (Num (targetCtr_of t))) (Num 100));
          additionalClicks' = jmax (Num 0) (jsub potentialClicks' (Num currentClicks'));
          estimatedValue' =
            jfixed 2 (jmul (jmul additionalClicks' (Num (estimatedClickValue_of t)))
                           (jadd (Num 1) (Num (conversionRate_of t))));
          opportunity' = opportunity_of additionalClicks';
          recommendation' =
            generateRecommendation this (to_num position') currentCtr' (to_num impressions')
      in case position' of
           None \<Rightarrow> Inl (JsError ''Cannot read properties of undefined (reading 'toFixed')'')
         | Some p \<Rightarrow>
             Inr \<lparr>query = (case keys row of None \<Rightarrow> ''N/A''
                           | Some ks \<Rightarrow> if 0 < length ks then ks ! 0 else ''N/A''),
                  page = (case keys row of None \<Rightarrow> ''N/A''
                          | Some ks \<Rightarrow> if 1 < length ks then ks ! 1 else ''N/A''),
                  currentPosition = toFixed 1 p,
                  qw_impressions = impressions',
                  currentClicks = currentClicks',
                  currentCtr = jfixed 2 currentCtr',
                  potentialClicks = potentialClicks',
                  additionalClicks = additionalClicks',
                  estimatedValue = estimatedValue',
                  opportunity = opportunity',
                  recommendation = recommendation'\<rparr>)"

text \<open>The comparator of \<open>.sort\<close>: \<open>(a, b) => b.additionalClicks - a.additionalClicks\<close>.\<close>

definition by_additionalClicks :: "quick_win \<Rightarrow> quick_win \<Rightarrow> jsnum" where
  "by_additionalClicks a b = jsub (additionalClicks b) (additionalClicks a)"

definition detectQuickWins ::
    "service \<Rightarrow> search_row list \<Rightarrow> thresholds option \<Rightarrow> thrown + quick_win list" where
  "detectQuickWins this rows topt =
     (let t = nullish topt no_thresholds
      in case array_map (to_quick_win this t) (filter (row_included t) rows) of
           Inl e \<Rightarrow> Inl e
         | Inr wins \<Rightarrow> Inr (array_sort by_additionalClicks wins))"

section \<open>Strings\<close>

text \<open>
  Strings are lists of 8-bit characters. \<open>toLowerCase\<close> is modelled on the ASCII letters;
  the two markers that the code looks for are ASCII.
\<close>

definition lower_char :: "char \<Rightarrow> char" where
  "lower_char c =
     (let n = (of_char c :: nat) in if 65 \<le> n \<and> n \<le> 90 then char_of (n + 32) else c)"

definition toLowerCase :: "string \<Rightarrow> string" where
  "toLowerCase s = map lower_char s"

definition startsWith :: "string \<Rightarrow> string \<Rightarrow> bool" where
  "startsWith s p = (take (length p) s = p)"

text \<open>\<open>s.includes(sub)\<close>: \<open>sub\<close> occurs in \<open>s\<close> as a contiguous run.\<close>

fun str_includes :: "string \<Rightarrow> string \<Rightarrow> bool" where
  "str_includes [] sub = (sub = [])"
| "str_includes (c # cs) sub = (startsWith (c # cs) sub \<or> str_includes cs sub)"

section \<open>The query builder (index.ts)\<close>

datatype filter_operator =
  Equals | Contains | NotEquals | NotContains | IncludingRegex | ExcludingRegex

fun operator_name :: "filter_operator \<Rightarrow> string" where
  "operator_name Equals = ''equals''"
| "operator_name Contains = ''contains''"
| "operator_name NotEquals = ''notEquals''"
| "operator_name NotContains = ''notContains''"
| "operator_name IncludingRegex = ''includingRegex''"
| "operator_name ExcludingRegex = ''excludingRegex''"

datatype device_type = DESKTOP | MOBILE | TABLET

fun device_name :: "device_type \<Rightarrow> string" where
  "device_name DESKTOP = ''DESKTOP''"
| "device_name MOBILE = ''MOBILE''"
| "device_name TABLET = ''TABLET''"

record filter_clause =
  dimension :: string
  operator :: string
  expression :: string

record filter_group =
  groupType :: string
  filters :: "filter_clause list"

text \<open>The fields of the parsed \<open>SearchAnalytics\<close> arguments that \<open>buildFilterGroups\<close> reads.\<close>

record filter_args =
  pageFilter :: "string option"
  queryFilter :: "string option"
  countryFilter :: "string option"
  deviceFilter :: "device_type option"
  filterOperator :: filter_operator

text \<open>
  Each \<open>if (args.xFilter)\<close> tests truthiness: a filter that is \<open>undefined\<close> or the empty
  string pushes nothing. A device is one of three non-empty names, so it is truthy
  whenever it is given.
\<close>

definition buildFilterGroups :: "filter_args \<Rightarrow> filter_group list option" where
  "buildFilterGroups args =
     (let filters0 = [];
          filters1 = (if truthy (pageFilter args)
            then filters0 @ [\<lparr>dimension = ''page'',
                   operator = operator_name (filterOperator args),
                   expression = nullish (pageFilter args) []\<rparr>]
            else filters0);
          filters2 = (if truthy (queryFilter args)
            then filters1 @ [\<lparr>dimension = ''query'',
                   operator = operator_name (filterOperator args),
                   expression = nullish (queryFilter args) []\<rparr>]
            else filters1);
          filters3 = (if truthy (countryFilter args)
            then filters2 @ [\<lparr>dimension = ''country'', operator = ''equals'',
                   expression = nullish (countryFilter args) []\<rparr>]
            else filters2);
          filters4 = (case deviceFilter args of
              Some d \<Rightarrow> filters3 @ [\<lparr>dimension = ''device'', operator = ''equals'',
                   expression = device_name d\<rparr>]
            | None \<Rightarrow> filters3)
      in if length filters4 > 0 then Some [\<lparr>groupType = ''and'', filters = filters4\<rparr>]
         else None)"

section \<open>The upstream service (search-console.ts)\<close>

text \<open>The request body of a search analytics query; every field is optional.\<close>

record request =
  startDate :: "string option"
  endDate :: "string option"
  dimensions :: "string list option"
  searchType :: "string option"
  aggregationType :: "string option"
  rowLimit :: "rat option"
  startRow :: "rat option"
  dataState :: "string option"
  dimensionFilterGroups :: "filter_group list option"

text \<open>The \<open>data\<close> of the upstream answer.\<close>

record query_data =
  data_rows :: "search_row list option"
  data_responseAggregationType :: "string option"

text \<open>
  What lies outside the repository, as parameters over a world \<open>'w\<close> that the calls may
  change: loading the credentials (\<open>auth.getClient()\<close>), the query endpoint
  (\<open>webmasters.searchanalytics.query\<close>), and the host name that \<open>new URL(url)\<close> parses
  (\<open>None\<close> when the constructor throws).
\<close>

record 'w collaborators =
  getClient :: "'w \<Rightarrow> (thrown + auth_client) \<times> 'w"
  searchanalytics_query ::
    "auth_client \<Rightarrow> string \<Rightarrow> request \<Rightarrow> 'w \<Rightarrow> (thrown + query_data) \<times> 'w"
  url_hostname :: "string \<Rightarrow> string option"

definition getAuthClient ::
    "'w collaborators \<Rightarrow> service \<times> 'w \<Rightarrow> (thrown + auth_client) \<times> (service \<times> 'w)" where
  "getAuthClient env st =
     (case st of (this, w) \<Rightarrow>
        (case cachedAuthClient this of
           Some client \<Rightarrow> (Inr client, (this, w))
         | None \<Rightarrow>
             (case getClient env w of
                (Inl e, w') \<Rightarrow> (Inl e, (this, w'))
              | (Inr client, w') \<Rightarrow>
                  (Inr client, (this\<lparr>cachedAuthClient := Some client\<rparr>, w')))))"

text \<open>The API client is a handle on the auth client.\<close>

definition getWebmasters ::
    "'w collaborators \<Rightarrow> service \<times> 'w \<Rightarrow> (thrown + auth_client) \<times> (service \<times> 'w)" where
  "getWebmasters env st = getAuthClient env st"

text \<open>\<open>url.replace(/^https?:\/\//, '')\<close> and \<open>.split('/')[0]\<close>.\<close>

definition strip_scheme :: "string \<Rightarrow> string" where
  "strip_scheme url =
     (if startsWith url ''https://'' then drop 8 url
      else if startsWith url ''http://'' then drop 7 url
      else url)"

definition normalizeUrl :: "'w collaborators \<Rightarrow> string \<Rightarrow> string" where
  "normalizeUrl env url =
     (if startsWith url ''sc-domain:'' then url
      else case url_hostname env url of
             Some hostname \<Rightarrow> ''sc-domain:'' @ hostname
           | None \<Rightarrow> ''sc-domain:'' @ takeWhile (\<lambda>c. c \<noteq> CHR ''/'') (strip_scheme url))"

text \<open>
  \<open>withPermissionFallback\<close>. Its test for a permission error: the lower-cased message,
  empty when the thrown value is not an \<open>Error\<close>, includes \<open>permission\<close> or \<open>403\<close>. The line
  written to the error log before the fallback is not modelled.
\<close>

definition error_text :: "thrown \<Rightarrow> string" where
  "error_text err = (case err of JsError m \<Rightarrow> m | NonError s \<Rightarrow> s)"

definition permission_error :: "thrown \<Rightarrow> bool" where
  "permission_error err =
     (let errorMessage = (case err of JsError m \<Rightarrow> toLowerCase m | NonError s \<Rightarrow> [])
      in str_includes errorMessage ''permission'' \<or> str_includes errorMessage ''403'')"

definition withPermissionFallback ::
    "('w \<Rightarrow> (thrown + 'a) \<times> 'w) \<Rightarrow> ('w \<Rightarrow> (thrown + 'a) \<times> 'w) \<Rightarrow> string \<Rightarrow> 'w
      \<Rightarrow> (thrown + 'a) \<times> 'w" where
  "withPermissionFallback operation fallbackOperation ctx w =
     (case operation w of
        (Inr v, w') \<Rightarrow> (Inr v, w')
      | (Inl err, w') \<Rightarrow>
          (if permission_error err then fallbackOperation w'
           else (Inl (JsError (''[GSC] '' @ ctx @ '' failed: '' @ error_text err)), w')))"

definition searchAnalytics ::
    "'w collaborators \<Rightarrow> string \<Rightarrow> request \<Rightarrow> service \<times> 'w
      \<Rightarrow> (thrown + query_data) \<times> (service \<times> 'w)" where
  "searchAnalytics env siteUrl requestBody st =
     (case getWebmasters env st of
        (Inl e, st') \<Rightarrow> (Inl e, st')
      | (Inr webmasters, (this, w)) \<Rightarrow>
          (case withPermissionFallback
                  (searchanalytics_query env webmasters siteUrl requestBody)
                  (searchanalytics_query env webmasters (normalizeUrl env siteUrl) requestBody)
                  ''searchAnalytics'' w of
             (result, w') \<Rightarrow> (result, (this, w'))))"

section \<open>Enhanced search analytics (search-console.ts)\<close>

record enhanced_options =
  regexFilter :: "string option"
  enableQuickWins :: "bool option"
  quickWinsThresholds :: "thresholds option"

text \<open>The metadata's \<open>rowLimit\<close> is named \<open>md_rowLimit\<close> here, apart from the request's field.\<close>

record metadata =
  regexFilterApplied :: bool
  quickWinsEnabled :: bool
  md_rowLimit :: rat
  totalRows :: nat

record enhanced_response =
  rows :: "search_row list option"
  responseAggregationType :: "string option"
  quickWins :: "quick_win list option"
  metadata :: "metadata option"

text \<open>
  The local \<open>enhancedRequestBody\<close>: a copy of the request, with one more filter group when
  the pattern is truthy and the dimensions include \<open>query\<close>.
\<close>

definition enhancedRequestBody :: "request \<Rightarrow> enhanced_options \<Rightarrow> request" where
  "enhancedRequestBody requestBody options =
     (if truthy (regexFilter options)
         \<and> (case dimensions requestBody of None \<Rightarrow> False | Some ds \<Rightarrow> ''query'' \<in> set ds)
      then requestBody\<lparr>dimensionFilterGroups :=
             Some (nullish (dimensionFilterGroups requestBody) []
                   @ [\<lparr>groupType = ''and'',
                        filters = [\<lparr>dimension = ''query'', operator = ''includingRegex'',
                                     expression = nullish (regexFilter options) []\<rparr>]\<rparr>])\<rparr>
      else requestBody)"

definition enhancedSearchAnalytics ::
    "'w collaborators \<Rightarrow> string \<Rightarrow> request option \<Rightarrow> enhanced_options \<Rightarrow> service \<times> 'w
      \<Rightarrow> (thrown + enhanced_response) \<times> (service \<times> 'w)" where
  "enhancedSearchAnalytics env siteUrl requestBody options st =
     (case requestBody of
        None \<Rightarrow> (Inl (JsError ''Request body is required''), st)
      | Some body \<Rightarrow>
          (case searchAnalytics env siteUrl (enhancedRequestBody body options) st of
             (Inl e, st') \<Rightarrow> (Inl e, st')
           | (Inr result, (this, w)) \<Rightarrow>
               (let rows' = nullish (data_rows result) [];
                    enhancedResponse =
                      \<lparr>rows = Some rows',
                       responseAggregationType = data_responseAggregationType result,
                       quickWins = None,
                       metadata = Some
                         \<lparr>regexFilterApplied = truthy (regexFilter options),
                          quickWinsEnabled = (enableQuickWins options = Some True),
                          md_rowLimit =
                            (case rowLimit (enhancedRequestBody body options) of
                               None \<Rightarrow> 1000
                             | Some n \<Rightarrow> if n = 0 then 1000 else n),
                          totalRows = length rows'\<rparr>\<rparr>
                in if enableQuickWins options = Some True \<and> length rows' > 0
                   then (case detectQuickWins this rows' (quickWinsThresholds options) of
                           Inl e \<Rightarrow> (Inl e, (this, w))
                         | Inr wins \<Rightarrow>
                             (Inr (enhancedResponse\<lparr>quickWins := Some wins\<rparr>), (this, w)))
                   else (Inr enhancedResponse, (this, w)))))"

section \<open>Validated thresholds (schemas.ts, QuickWinsThresholdsSchema)\<close>

text \<open>
  The tools hand \<open>detectQuickWins\<close> only thresholds that the schema has parsed. A field
  that is absent passes: the schema, and the destructuring above, fill in its default.
\<close>

definition accepts :: "(rat \<Rightarrow> bool) \<Rightarrow> rat option \<Rightarrow> bool" where
  "accepts P v = (case v of None \<Rightarrow> True | Some x \<Rightarrow> P x)"

definition QuickWinsThresholdsSchema :: "thresholds \<Rightarrow> bool" where
  "QuickWinsThresholdsSchema t =
     (accepts (\<lambda>v. of_int \<lfloor>v\<rfloor> = v \<and> v \<ge> 1) (minImpressions t)
      \<and> accepts (\<lambda>v. v \<ge> 0 \<and> v \<le> 100) (maxCtr t)
      \<and> accepts (\<lambda>v. v \<ge> 1 \<and> v \<le> 100) (positionRangeMin t)
      \<and> accepts (\<lambda>v. v \<ge> 1 \<and> v \<le> 100) (positionRangeMax t)
      \<and> accepts (\<lambda>v. v \<ge> 0 \<and> v \<le> 100) (targetCtr t)
      \<and> accepts (\<lambda>v. v \<ge> 0) (estimatedClickValue t)
      \<and> accepts (\<lambda>v. v \<ge> 0 \<and> v \<le> 1) (conversionRate t))"

section \<open>The inclusion rule in the words of the specification\<close>



section \<open>Instrumented collaborators\<close>

text \<open>Counting the runs of an operation, next to the world it acts on.\<close>

definition counted :: "('w \<Rightarrow> 'r \<times> 'w) \<Rightarrow> 'w \<times> nat \<Rightarrow> 'r \<times> ('w \<times> nat)" where
  "counted f s = (case s of (w, n) \<Rightarrow> (case f w of (r, w') \<Rightarrow> (r, (w', Suc n))))"

definition uncounted :: "('w \<Rightarrow> 'r \<times> 'w) \<Rightarrow> 'w \<times> nat \<Rightarrow> 'r \<times> ('w \<times> nat)" where
  "uncounted f s = (case s of (w, n) \<Rightarrow> (case f w of (r, w') \<Rightarrow> (r, (w', n))))"

text \<open>Recording every request that reaches the query endpoint, with its site.\<close>

definition recorded ::
    "'w collaborators \<Rightarrow> ('w \<times> (string \<times> request) list) collaborators" where
  "recorded env =
     \<lparr>getClient = (\<lambda>s. case s of (w, calls) \<Rightarrow>
          (case getClient env w of (r, w') \<Rightarrow> (r, (w', calls)))),
      searchanalytics_query = (\<lambda>client site req s. case s of (w, calls) \<Rightarrow>
          (case searchanalytics_query env client site req w of
             (r, w') \<Rightarrow> (r, (w', calls @ [(site, req)])))),
      url_hostname = url_hostname env\<rparr>"

section \<open>The filters of the query builder in the words of the specification\<close>

text \<open>
  The simple filter on a dimension: the value given for it, where a filter that is absent
  or empty counts as not present.
\<close>

definition nonempty :: "string option \<Rightarrow> string option" where
  "nonempty v = (case v of None \<Rightarrow> None | Some s \<Rightarrow> if s = [] then None else Some s)"

definition simple_filter :: "filter_args \<Rightarrow> string \<Rightarrow> string option" where
  "simple_filter args d =
     (if d = ''page'' then nonempty (pageFilter args)
      else if d = ''query'' then nonempty (queryFilter args)
      else if d = ''country'' then nonempty (countryFilter args)
      else if d = ''device'' then map_option device_name (deviceFilter args)
      else None)"

section \<open>Example inputs\<close>

definition example_row :: search_row where
  "example_row = \<lparr>keys = None, clicks = Some 15, impressions = Some 1250,
     ctr = Some (12 / 1000), position = Some (62 / 10)\<rparr>"

definition some_service :: service where
  "some_service = \<lparr>cachedAuthClient = None, hasWriteAccess = True\<rparr>"

definition order_rows :: "search_row list" where
  "order_rows =
     [\<lparr>keys = Some [''a''], clicks = Some 0, impressions = Some 200, ctr = Some 0, position = Some 5\<rparr>,
      \<lparr>keys = Some [''b''], clicks = Some 0, impressions = Some 2000, ctr = Some 0, position = Some 5\<rparr>,
      \<lparr>keys = Some [''c''], clicks = Some 0, impressions = Some 2000, ctr = Some 0, position = Some 5\<rparr>,
      \<lparr>keys = Some [''d''], clicks = Some 0, impressions = Some 500, ctr = Some 0, position = Some 5\<rparr>]"

definition inverted_thresholds :: thresholds where
  "inverted_thresholds = no_thresholds\<lparr>positionRangeMin := Some 10, positionRangeMax := Some 4\<rparr>"

definition keyed_row :: search_row where
  "keyed_row = example_row\<lparr>keys := Some [''seo tips'', ''https://example.com/tips'']\<rparr>"


definition blank_page_args :: filter_args where
  "blank_page_args = \<lparr>pageFilter = Some [], queryFilter = None, countryFilter = None,
     deviceFilter = None, filterOperator = Equals\<rparr>"

definition no_filter_args :: filter_args where
  "no_filter_args = \<lparr>pageFilter = None, queryFilter = None, countryFilter = None,
     deviceFilter = None, filterOperator = Contains\<rparr>"

definition blog_filter_args :: filter_args where
  "blog_filter_args = \<lparr>pageFilter = Some ''/blog'', queryFilter = Some ''shoes'',
     countryFilter = Some ''USA'', deviceFilter = Some MOBILE, filterOperator = Contains\<rparr>"


definition denied_call :: "nat \<Rightarrow> (thrown + nat) \<times> nat" where
  "denied_call w = (Inl (JsError ''User does not have sufficient PERMISSION for site''), Suc w)"

definition quota_call :: "nat \<Rightarrow> (thrown + nat) \<times> nat" where
  "quota_call w = (Inl (JsError ''Quota exceeded''), Suc w)"

definition retry_ok :: "nat \<Rightarrow> (thrown + nat) \<times> nat" where
  "retry_ok w = (Inr 42, w + 10)"

definition retry_denied :: "nat \<Rightarrow> (thrown + nat) \<times> nat" where
  "retry_denied w = (Inl (JsError ''403 Forbidden''), w + 10)"

definition quiet_env :: "unit collaborators" where
  "quiet_env =
     \<lparr>getClient = (\<lambda>w. (Inr (AuthClient 0), w)),
      searchanalytics_query = (\<lambda>client site req w.
        (Inr \<lparr>data_rows = Some [example_row], data_responseAggregationType = None\<rparr>, w)),
      url_hostname = (\<lambda>u. None)\<rparr>"

definition page_request :: request where
  "page_request = \<lparr>startDate = Some ''2024-01-01'', endDate = Some ''2024-01-31'',
     dimensions = Some [''page''], searchType = None, aggregationType = None,
     rowLimit = Some 1000, startRow = Some 0, dataState = Some ''final'',
     dimensionFilterGroups = None\<rparr>"

definition query_request :: request where
  "query_request = page_request\<lparr>dimensions := Some [''query''],
     dimensionFilterGroups := Some [\<lparr>groupType = ''and'',
       filters = [\<lparr>dimension = ''country'', operator = ''equals'', expression = ''USA''\<rparr>]\<rparr>]\<rparr>"

definition pattern_options :: enhanced_options where
  "pattern_options = \<lparr>regexFilter = Some ''shoes|boots'', enableQuickWins = None,
     quickWinsThresholds = None\<rparr>"

definition blank_pattern_options :: enhanced_options where
  "blank_pattern_options = \<lparr>regexFilter = Some [], enableQuickWins = None,
     quickWinsThresholds = None\<rparr>"

definition strict_env :: "unit collaborators" where
  "strict_env =
     \<lparr>getClient = (\<lambda>w. (Inr (AuthClient 0), w)),
      searchanalytics_query = (\<lambda>client site req w.
        if startsWith site ''sc-domain:''
        then (Inr \<lparr>data_rows = Some [], data_responseAggregationType = None\<rparr>, w)
        else (Inl (JsError ''User does not have sufficient permission for site''), w)),
      url_hostname = (\<lambda>u. if u = ''https://www.example.com/'' then Some ''www.example.com''
                           else None)\<rparr>"

section \<open>Properties of the detection\<close>

text \<open>
  The two roundings are roundings: \<open>Math.round\<close> lands on an integer within a half, and
  \<open>toFixed(2)\<close>, below its switch at \<open>10^21\<close>, on a multiple of a hundredth within half a
  hundredth.
\<close>

lemma math_round_nearest:
  "\<exists>n::int. math_round x = of_int n \<and> \<bar>math_round x - x\<bar> \<le> 1 / 2"
proof -
  have "of_int \<lfloor>x + 1 / 2\<rfloor> \<le> x + 1 / 2" and "x + 1 / 2 < of_int \<lfloor>x + 1 / 2\<rfloor> + 1"
    by linarith+
  then have "\<bar>of_int \<lfloor>x + 1 / 2\<rfloor> - x\<bar> \<le> 1 / 2"
    by linarith
  then show ?thesis
    unfolding math_round_def by blast
qed

lemma toFixed_two_decimals:
  assumes "0 \<le> x" and "x < 10 ^ 21"
  shows "\<exists>n::int. toFixed 2 x = of_int n / 100 \<and> \<bar>toFixed 2 x - x\<bar> \<le> 1 / 200"
proof -
  define n where "n = \<lfloor>x * 100 + 1 / 2\<rfloor>"
  have v: "toFixed 2 x = of_int n / 100"
    using assms by (simp add: toFixed_def toFixed_abs_def n_def)
  have "of_int n \<le> x * 100 + 1 / 2" and "x * 100 + 1 / 2 < of_int n + 1"
    unfolding n_def by linarith+
  then have "of_int n / 100 - x \<le> 1 / 200" and "- (1 / 200) \<le> of_int n / 100 - x"
    by (simp_all add: field_simps)
  then have "\<bar>of_int n / 100 - x\<bar> \<le> 1 / 200"
    by linarith
  then have "\<bar>toFixed 2 x - x\<bar> \<le> 1 / 200"
    by (simp only: v)
  with v show ?thesis by blast
qed

lemma schema_lower_bounds:
  "QuickWinsThresholdsSchema t \<Longrightarrow> 1 \<le> minImpressions_of t \<and> 1 \<le> positionRangeMin_of t"
  by (auto simp: QuickWinsThresholdsSchema_def accepts_def minImpressions_of_def
      positionRangeMin_of_def nullish_def split: option.splits)

lemma included_measures:
  assumes "QuickWinsThresholdsSchema t \<or> (impressions row \<noteq> None \<and> position row \<noteq> None)"
    and "row_included t row"
  shows "\<exists>i p. impressions row = Some i \<and> position row = Some p"
  using assms(1)
proof
  assume "QuickWinsThresholdsSchema t"
  then have b: "1 \<le> minImpressions_of t" "1 \<le> positionRangeMin_of t"
    using schema_lower_bounds by blast+
  from assms(2) have "minImpressions_of t \<le> nullish (impressions row) 0"
    and "positionRangeMin_of t \<le> nullish (position row) 0"
    by (simp_all add: row_included_def Let_def)
  with b have "0 < nullish (impressions row) 0" and "0 < nullish (position row) 0"
    by linarith+
  then show ?thesis
    by (cases "impressions row"; cases "position row") (simp_all add: nullish_def)
next
  assume "impressions row \<noteq> None \<and> position row \<noteq> None"
  then show ?thesis by auto
qed

lemma array_map_total:
  assumes "\<forall>x\<in>set xs. \<exists>y. f x = Inr y"
  shows "\<exists>ys. array_map f xs = Inr ys \<and> length ys = length xs
           \<and> (\<forall>n<length xs. f (xs ! n) = Inr (ys ! n))"
  using assms
proof (induction xs)
  case Nil
  then show ?case by simp
next
  case (Cons x xs)
  then obtain y where y: "f x = Inr y" by auto
  from Cons obtain ys where ys: "array_map f xs = Inr ys" "length ys = length xs"
    "\<forall>n<length xs. f (xs ! n) = Inr (ys ! n)" by auto
  have "\<forall>n<length (x # xs). f ((x # xs) ! n) = Inr ((y # ys) ! n)"
    using y ys(3) by (auto simp: nth_Cons split: nat.splits)
  with y ys show ?case by simp
qed


lemma array_map_sources:
  "array_map f xs = Inr ys \<Longrightarrow> y \<in> set ys \<Longrightarrow> \<exists>x\<in>set xs. f x = Inr y"
  by (induction xs arbitrary: ys) (auto split: sum.splits)




lemma set_sort_insert: "set (sort_insert c x ys) = insert x (set ys)"
  by (induction ys) auto

lemma set_array_sort: "set (array_sort c xs) = set xs"
  by (induction xs) (simp_all add: set_sort_insert)

lemma positive_jsub: "positive (jsub b a) \<Longrightarrow> a \<noteq> b"
  by (cases a; cases b) auto

lemma filter_sort_insert:
  "filter (\<lambda>w. key w = k) (sort_insert (\<lambda>a b. jsub (key b) (key a)) x ys)
     = filter (\<lambda>w. key w = k) (x # ys)"
proof (induction ys)
  case Nil
  show ?case by simp
next
  case (Cons y ys)
  show ?case
  proof (cases "positive (jsub (key y) (key x))")
    case True
    then have "key x \<noteq> key y" by (rule positive_jsub)
    with True Cons show ?thesis by auto
  next
    case False
    then show ?thesis by simp
  qed
qed

lemma filter_array_sort:
  "filter (\<lambda>w. key w = k) (array_sort (\<lambda>a b. jsub (key b) (key a)) xs)
     = filter (\<lambda>w. key w = k) xs"
proof (induction xs)
  case Nil
  show ?case by simp
next
  case (Cons x xs)
  have "filter (\<lambda>w. key w = k) (array_sort (\<lambda>a b. jsub (key b) (key a)) (x # xs))
      = filter (\<lambda>w. key w = k) (x # array_sort (\<lambda>a b. jsub (key b) (key a)) xs)"
    by (simp only: array_sort.simps filter_sort_insert)
  with Cons show ?case by simp
qed

lemma sorted_sort_insert:
  assumes "\<forall>w\<in>insert x (set ys). \<exists>r. key w = Num r"
    and "sorted_wrt (\<lambda>a b. jge (key a) (key b)) ys"
  shows "sorted_wrt (\<lambda>a b. jge (key a) (key b))
           (sort_insert (\<lambda>a b. jsub (key b) (key a)) x ys)"
  using assms
proof (induction ys)
  case Nil
  show ?case by simp
next
  case (Cons y ys)
  obtain rx ry where rx: "key x = Num rx" and ry: "key y = Num ry"
    using Cons.prems(1) by auto
  show ?case
  proof (cases "ry - rx > 0")
    case True
    have ih: "sorted_wrt (\<lambda>a b. jge (key a) (key b))
                (sort_insert (\<lambda>a b. jsub (key b) (key a)) x ys)"
      using Cons by simp
    have "jge (key y) (key x)" using True rx ry by simp
    moreover have "\<forall>z\<in>set ys. jge (key y) (key z)" using Cons.prems(2) by simp
    ultimately show ?thesis using True rx ry ih by (simp add: set_sort_insert)
  next
    case False
    have xy: "jge (key x) (key y)" using False rx ry by simp
    have "jge (key x) (key z)" if z: "z \<in> set ys" for z
    proof -
      obtain rz where rz: "key z = Num rz" using Cons.prems(1) z by auto
      have "jge (key y) (key z)" using Cons.prems(2) z by simp
      with xy rx ry rz show ?thesis by simp
    qed
    with xy False rx ry Cons.prems(2) show ?thesis by simp
  qed
qed

lemma sorted_array_sort:
  assumes "\<forall>w\<in>set xs. \<exists>r. key w = Num r"
  shows "sorted_wrt (\<lambda>a b. jge (key a) (key b)) (array_sort (\<lambda>a b. jsub (key b) (key a)) xs)"
  using assms
proof (induction xs)
  case Nil
  show ?case by simp
next
  case (Cons x xs)
  have "\<forall>w\<in>insert x (set (array_sort (\<lambda>a b. jsub (key b) (key a)) xs)). \<exists>r. key w = Num r"
    using Cons.prems by (simp add: set_array_sort)
  moreover have "sorted_wrt (\<lambda>a b. jge (key a) (key b))
      (array_sort (\<lambda>a b. jsub (key b) (key a)) xs)"
    using Cons by simp
  ultimately show ?case by (simp only: array_sort.simps sorted_sort_insert)
qed

lemma by_additionalClicks_key:
  "by_additionalClicks = (\<lambda>a b. jsub (additionalClicks b) (additionalClicks a))"
  by (intro ext) (simp add: by_additionalClicks_def)

lemma to_quick_win_defined:
  assumes "impressions row = Some i" and "position row = Some p"
  shows "\<exists>w. to_quick_win this t row = Inr w
    \<and> potentialClicks w = Num (math_round (i * targetCtr_of t / 100))
    \<and> additionalClicks w
        = Num (max 0 (math_round (i * targetCtr_of t / 100) - nullish (clicks row) 0))
    \<and> estimatedValue w
        = Num (toFixed 2 (max 0 (math_round (i * targetCtr_of t / 100) - nullish (clicks row) 0)
                 * estimatedClickValue_of t * (1 + conversionRate_of t)))
    \<and> opportunity w = opportunity_of (additionalClicks w)
    \<and> query w = (case keys row of Some (k # _) \<Rightarrow> k | _ \<Rightarrow> ''N/A'')
    \<and> page w = (case keys row of Some (_ # k # _) \<Rightarrow> k | _ \<Rightarrow> ''N/A'')"
  using assms
  by (simp add: to_quick_win_def Let_def to_num_def split: option.splits list.splits)

lemma detect_unfold:
  "detectQuickWins this rs topt =
     (case array_map (to_quick_win this (nullish topt no_thresholds))
             (filter (row_included (nullish topt no_thresholds)) rs) of
        Inl e \<Rightarrow> Inl e
      | Inr wins \<Rightarrow> Inr (array_sort by_additionalClicks wins))"
  by (simp add: detectQuickWins_def Let_def)

lemma valid_map_total:
  assumes "QuickWinsThresholdsSchema t
           \<or> (\<forall>row\<in>set rs. impressions row \<noteq> None \<and> position row \<noteq> None)"
  shows "\<exists>pre. array_map (to_quick_win this t) (filter (row_included t) rs) = Inr pre
           \<and> (\<forall>w\<in>set pre. \<exists>r. additionalClicks w = Num r)"
proof -
  have ok: "\<exists>w. to_quick_win this t row = Inr w \<and> (\<exists>r. additionalClicks w = Num r)"
    if mem: "row \<in> set rs" and inc: "row_included t row" for row
  proof -
    have "QuickWinsThresholdsSchema t \<or> (impressions row \<noteq> None \<and> position row \<noteq> None)"
      using assms mem by blast
    then obtain i p where "impressions row = Some i" "position row = Some p"
      using included_measures [OF _ inc] by blast
    from to_quick_win_defined [OF this] show ?thesis by blast
  qed
  then have "\<forall>row\<in>set (filter (row_included t) rs). \<exists>w. to_quick_win this t row = Inr w"
    by auto
  from array_map_total [OF this] obtain pre
    where pre: "array_map (to_quick_win this t) (filter (row_included t) rs) = Inr pre"
    by blast
  have "\<exists>r. additionalClicks w = Num r" if w: "w \<in> set pre" for w
  proof -
    obtain row where "row \<in> set (filter (row_included t) rs)" "to_quick_win this t row = Inr w"
      using array_map_sources [OF pre w] by blast
    with ok [of row] show ?thesis by auto
  qed
  with pre show ?thesis by blast
qed






text \<open>
  C4: under thresholds that the schema admits, or on rows that all carry their impressions
  and position, detection returns its opportunities in descending order of \<open>additionalClicks\<close>, and for each value of \<open>additionalClicks\<close> the
  opportunities with that value stand in the order in which the filtering and mapping
  pass produced them. The witness has additional clicks 10, 100, 100, 25 in input order
  and comes out as 100, 100, 25, 10 with the two 100s in their input order.
\<close>
theorem quick_wins_order:
  assumes "QuickWinsThresholdsSchema (nullish topt no_thresholds)
           \<or> (\<forall>row\<in>set rs. impressions row \<noteq> None \<and> position row \<noteq> None)"
  shows "\<exists>pre wins.
      array_map (to_quick_win this (nullish topt no_thresholds))
        (filter (row_included (nullish topt no_thresholds)) rs) = Inr pre
    \<and> detectQuickWins this rs topt = Inr wins
    \<and> sorted_wrt (\<lambda>a b. jge (additionalClicks a) (additionalClicks b)) wins
    \<and> (\<forall>k. filter (\<lambda>w. additionalClicks w = k) wins
            = filter (\<lambda>w. additionalClicks w = k) pre)"
proof -
  from valid_map_total [OF assms, of this] obtain pre where
    pre: "array_map (to_quick_win this (nullish topt no_thresholds))
        (filter (row_included (nullish topt no_thresholds)) rs) = Inr pre"
    and nums: "\<forall>w\<in>set pre. \<exists>r. additionalClicks w = Num r"
    by blast
  have run: "detectQuickWins this rs topt = Inr (array_sort by_additionalClicks pre)"
    by (simp add: detect_unfold pre)
  have "sorted_wrt (\<lambda>a b. jge (additionalClicks a) (additionalClicks b))
          (array_sort by_additionalClicks pre)"
    unfolding by_additionalClicks_key using nums by (rule sorted_array_sort)
  moreover have "filter (\<lambda>w. additionalClicks w = k) (array_sort by_additionalClicks pre)
            = filter (\<lambda>w. additionalClicks w = k) pre" for k
    unfolding by_additionalClicks_key by (rule filter_array_sort)
  ultimately show ?thesis using pre run by blast
qed

theorem quick_wins_order_witness:
  "QuickWinsThresholdsSchema (nullish None no_thresholds)
   \<and> (\<exists>wins. detectQuickWins some_service order_rows None = Inr wins
        \<and> sorted_wrt (\<lambda>a b. jge (additionalClicks a) (additionalClicks b)) wins
        \<and> map additionalClicks wins = [Num 100, Num 100, Num 25, Num 10]
        \<and> map query wins = [''b'', ''c'', ''d'', ''a''])"
proof -
  have v: "QuickWinsThresholdsSchema (nullish None no_thresholds)"
    by (simp add: QuickWinsThresholdsSchema_def accepts_def no_thresholds_def nullish_def)
  have "(case detectQuickWins some_service order_rows None of
           Inl e \<Rightarrow> False
         | Inr wins \<Rightarrow> map additionalClicks wins = [Num 100, Num 100, Num 25, Num 10]
             \<and> map query wins = [''b'', ''c'', ''d'', ''a'']) = True"
    by code_simp
  then show ?thesis
    using v quick_wins_order [where this = some_service and rs = order_rows, OF disjI1 [OF v]]
    by (auto split: sum.splits)
qed

text \<open>
  C7: when the effective \<open>positionRangeMin\<close> is above the effective \<open>positionRangeMax\<close>,
  detection returns the empty list, for every row set, and does not throw.
\<close>
theorem inverted_range_empty:
  assumes "positionRangeMin_of (nullish topt no_thresholds)
             > positionRangeMax_of (nullish topt no_thresholds)"
  shows "detectQuickWins this rs topt = Inr []"
proof -
  have "\<not> row_included (nullish topt no_thresholds) row" for row
    using assms by (auto simp: row_included_def Let_def)
  then have "filter (row_included (nullish topt no_thresholds)) rs = []"
    by (simp add: filter_empty_conv)
  then show ?thesis by (simp add: detect_unfold)
qed

theorem inverted_range_empty_witness:
  "positionRangeMin_of (nullish (Some inverted_thresholds) no_thresholds)
      > positionRangeMax_of (nullish (Some inverted_thresholds) no_thresholds)
   \<and> detectQuickWins some_service [example_row, keyed_row] (Some inverted_thresholds) = Inr []"
proof -
  have h: "positionRangeMin_of (nullish (Some inverted_thresholds) no_thresholds)
      > positionRangeMax_of (nullish (Some inverted_thresholds) no_thresholds)"
    by (simp add: positionRangeMin_of_def positionRangeMax_of_def nullish_def
        inverted_thresholds_def no_thresholds_def)
  show ?thesis using h inverted_range_empty [OF h] by simp
qed

text \<open>
  C9: detection is a function of the rows and the thresholds alone: whatever the state of
  the service object is at either run, two runs on the same rows and thresholds return
  the same result.
\<close>
theorem detection_deterministic:
  "detectQuickWins this rs topt = detectQuickWins this' rs topt"
proof -
  have "generateRecommendation this = generateRecommendation this'"
    by (intro ext) (simp add: generateRecommendation_def)
  then have "to_quick_win this t = to_quick_win this' t" for t
    by (intro ext) (simp add: to_quick_win_def)
  then show ?thesis by (simp add: detectQuickWins_def)
qed

text \<open>
  C10: for every included row, under thresholds that the schema admits or with the row
  carrying its impressions and position, the opportunity is built without an error; its \<open>query\<close> is the first dimension key and its \<open>page\<close> the
  second, each replaced by \<open>N/A\<close> when the keys are missing or too short.
\<close>
theorem quick_win_dimension_keys:
  assumes "QuickWinsThresholdsSchema t \<or> (impressions row \<noteq> None \<and> position row \<noteq> None)"
    and "row_included t row"
  shows "\<exists>w. to_quick_win this t row = Inr w
    \<and> query w = (case keys row of Some (k # _) \<Rightarrow> k | _ \<Rightarrow> ''N/A'')
    \<and> page w = (case keys row of Some (_ # k # _) \<Rightarrow> k | _ \<Rightarrow> ''N/A'')"
proof -
  obtain i p where ip: "impressions row = Some i" "position row = Some p"
    using included_measures [OF assms] by blast
  from to_quick_win_defined [OF ip, of this t] show ?thesis by blast
qed

theorem quick_win_dimension_keys_witness:
  "QuickWinsThresholdsSchema no_thresholds
   \<and> row_included no_thresholds example_row \<and> keys example_row = None
   \<and> (\<exists>w. to_quick_win some_service no_thresholds example_row = Inr w
         \<and> query w = ''N/A'' \<and> page w = ''N/A'')
   \<and> row_included no_thresholds keyed_row
   \<and> (\<exists>w. to_quick_win some_service no_thresholds keyed_row = Inr w
         \<and> query w = ''seo tips'' \<and> page w = ''https://example.com/tips'')"
proof -
  have v: "QuickWinsThresholdsSchema no_thresholds"
    by (simp add: QuickWinsThresholdsSchema_def accepts_def no_thresholds_def)
  have a: "row_included no_thresholds example_row"
    by (simp add: row_included_def example_row_def no_thresholds_def nullish_def
        minImpressions_of_def maxCtr_of_def positionRangeMin_of_def positionRangeMax_of_def)
  have b: "row_included no_thresholds keyed_row"
    by (simp add: row_included_def keyed_row_def example_row_def no_thresholds_def nullish_def
        minImpressions_of_def maxCtr_of_def positionRangeMin_of_def positionRangeMax_of_def)
  have ka: "keys example_row = None" by (simp add: example_row_def)
  have kb: "keys keyed_row = Some [''seo tips'', ''https://example.com/tips'']"
    by (simp add: keyed_row_def)
  show ?thesis
    using v a b ka kb
      quick_win_dimension_keys [where this = some_service, OF disjI1 [OF v] a]
      quick_win_dimension_keys [where this = some_service, OF disjI1 [OF v] b]
    by simp
qed

section \<open>Properties of the query builder\<close>

lemma nonempty_truthy: "nonempty v = None \<longleftrightarrow> \<not> truthy v"
  by (simp add: nonempty_def truthy_def split: option.splits)

lemma nonempty_Some: "truthy v \<Longrightarrow> nonempty v = Some (nullish v [])"
  by (simp add: nonempty_def truthy_def nullish_def split: option.splits)

lemma simple_filter_all_none:
  "(\<forall>d. simple_filter a d = None) \<longleftrightarrow>
     \<not> truthy (pageFilter a) \<and> \<not> truthy (queryFilter a) \<and> \<not> truthy (countryFilter a)
     \<and> deviceFilter a = None"
proof
  assume h: "\<forall>d. simple_filter a d = None"
  have "simple_filter a ''page'' = None" "simple_filter a ''query'' = None"
    "simple_filter a ''country'' = None" "simple_filter a ''device'' = None"
    using h [rule_format, of "''page''"] h [rule_format, of "''query''"]
      h [rule_format, of "''country''"] h [rule_format, of "''device''"] by - assumption+
  then show "\<not> truthy (pageFilter a) \<and> \<not> truthy (queryFilter a) \<and> \<not> truthy (countryFilter a)
     \<and> deviceFilter a = None"
    by (simp_all add: simple_filter_def nonempty_truthy)
next
  assume "\<not> truthy (pageFilter a) \<and> \<not> truthy (queryFilter a) \<and> \<not> truthy (countryFilter a)
     \<and> deviceFilter a = None"
  then show "\<forall>d. simple_filter a d = None"
    by (simp add: simple_filter_def nonempty_truthy)
qed


text \<open>
  C6: the query builder returns no filter groups at all when none of the four simple
  filters (page, query, country, device) is given with a non-empty value; otherwise it
  returns exactly one group of type \<open>and\<close>, whose clauses are those of the non-empty
  filters in the order page, query, country, device, each with its filter's value; the
  country and device clauses have the operator \<open>equals\<close> whatever the shared operator is,
  the page and query clauses have the shared operator.
\<close>

theorem filter_groups_shape:
  "((\<forall>d. simple_filter a d = None) \<longrightarrow> buildFilterGroups a = None)
   \<and> ((\<exists>d. simple_filter a d \<noteq> None) \<longrightarrow>
        (\<exists>cs. buildFilterGroups a = Some [\<lparr>groupType = ''and'', filters = cs\<rparr>]
           \<and> map dimension cs
               = filter (\<lambda>d. simple_filter a d \<noteq> None) [''page'', ''query'', ''country'', ''device'']
           \<and> (\<forall>c\<in>set cs. simple_filter a (dimension c) = Some (expression c)
                \<and> operator c = (if dimension c = ''country'' \<or> dimension c = ''device''
                                 then ''equals'' else operator_name (filterOperator a)))))"
proof (cases "\<forall>d. simple_filter a d = None")
  case True
  then have "\<not> truthy (pageFilter a)" "\<not> truthy (queryFilter a)" "\<not> truthy (countryFilter a)"
    "deviceFilter a = None"
    using simple_filter_all_none [of a] by simp_all
  then have "buildFilterGroups a = None"
    by (simp add: buildFilterGroups_def)
  with True show ?thesis by simp
next
  case False
  define P where "P = \<lparr>dimension = ''page'',
          operator = operator_name (filterOperator a), expression = nullish (pageFilter a) []\<rparr>"
  define Q where "Q = \<lparr>dimension = ''query'',
          operator = operator_name (filterOperator a), expression = nullish (queryFilter a) []\<rparr>"
  define C where "C = \<lparr>dimension = ''country'', operator = ''equals'',
          expression = nullish (countryFilter a) []\<rparr>"
  define D where "D = (\<lambda>d. \<lparr>dimension = ''device'', operator = ''equals'',
          expression = device_name d\<rparr>)"
  define cs where "cs = (if truthy (pageFilter a) then [P] else [])
    @ (if truthy (queryFilter a) then [Q] else [])
    @ (if truthy (countryFilter a) then [C] else [])
    @ (case deviceFilter a of Some d \<Rightarrow> [D d] | None \<Rightarrow> [])"
  have filters: "buildFilterGroups a
      = (if length cs > 0 then Some [\<lparr>groupType = ''and'', filters = cs\<rparr>] else None)"
    by (simp add: buildFilterGroups_def cs_def P_def Q_def C_def D_def Let_def
        split: option.splits)
  have "\<not> (\<not> truthy (pageFilter a) \<and> \<not> truthy (queryFilter a) \<and> \<not> truthy (countryFilter a)
     \<and> deviceFilter a = None)"
    using False simple_filter_all_none [of a] by simp
  then have ne: "length cs > 0"
    by (cases "deviceFilter a") (auto simp: cs_def)
  have built: "buildFilterGroups a = Some [\<lparr>groupType = ''and'', filters = cs\<rparr>]"
    using ne filters by simp
  have dP: "dimension P = ''page''" and dQ: "dimension Q = ''query''"
    and dC: "dimension C = ''country''" and dD: "dimension (D d) = ''device''" for d
    by (simp_all add: P_def Q_def C_def D_def)
  have sP: "simple_filter a ''page'' = nonempty (pageFilter a)"
    and sQ: "simple_filter a ''query'' = nonempty (queryFilter a)"
    and sC: "simple_filter a ''country'' = nonempty (countryFilter a)"
    and sD: "simple_filter a ''device'' = map_option device_name (deviceFilter a)"
    by (simp_all add: simple_filter_def)
  have dims: "map dimension cs
      = filter (\<lambda>d. simple_filter a d \<noteq> None) [''page'', ''query'', ''country'', ''device'']"
    by (cases "deviceFilter a") (simp_all add: cs_def dP dQ dC dD sP sQ sC sD nonempty_truthy)
  have mem: "(truthy (pageFilter a) \<and> c = P) \<or> (truthy (queryFilter a) \<and> c = Q)
      \<or> (truthy (countryFilter a) \<and> c = C) \<or> (\<exists>d. deviceFilter a = Some d \<and> c = D d)"
    if c: "c \<in> set cs" for c
    using c by (cases "deviceFilter a") (auto simp: cs_def split: if_splits)
  have okP: "truthy (pageFilter a) \<Longrightarrow> simple_filter a (dimension P) = Some (expression P)
      \<and> operator P = (if dimension P = ''country'' \<or> dimension P = ''device''
                       then ''equals'' else operator_name (filterOperator a))"
    by (simp add: dP sP nonempty_Some) (simp add: P_def)
  have okQ: "truthy (queryFilter a) \<Longrightarrow> simple_filter a (dimension Q) = Some (expression Q)
      \<and> operator Q = (if dimension Q = ''country'' \<or> dimension Q = ''device''
                       then ''equals'' else operator_name (filterOperator a))"
    by (simp add: dQ sQ nonempty_Some) (simp add: Q_def)
  have okC: "truthy (countryFilter a) \<Longrightarrow> simple_filter a (dimension C) = Some (expression C)
      \<and> operator C = (if dimension C = ''country'' \<or> dimension C = ''device''
                       then ''equals'' else operator_name (filterOperator a))"
    by (simp add: dC sC nonempty_Some) (simp add: C_def)
  have okD: "deviceFilter a = Some d \<Longrightarrow> simple_filter a (dimension (D d)) = Some (expression (D d))
      \<and> operator (D d) = (if dimension (D d) = ''country'' \<or> dimension (D d) = ''device''
                       then ''equals'' else operator_name (filterOperator a))" for d
    by (simp add: dD sD) (simp add: D_def)
  have each: "\<forall>c\<in>set cs. simple_filter a (dimension c) = Some (expression c)
      \<and> operator c = (if dimension c = ''country'' \<or> dimension c = ''device''
                       then ''equals'' else operator_name (filterOperator a))"
    using mem okP okQ okC okD by blast
  have ex: "\<exists>cs. buildFilterGroups a = Some [\<lparr>groupType = ''and'', filters = cs\<rparr>]
           \<and> map dimension cs
               = filter (\<lambda>d. simple_filter a d \<noteq> None) [''page'', ''query'', ''country'', ''device'']
           \<and> (\<forall>c\<in>set cs. simple_filter a (dimension c) = Some (expression c)
                \<and> operator c = (if dimension c = ''country'' \<or> dimension c = ''device''
                                 then ''equals'' else operator_name (filterOperator a)))"
    by (rule exI [of _ cs]) (intro conjI built dims each)
  show ?thesis
  proof (intro conjI impI)
    assume "\<forall>d. simple_filter a d = None"
    with False show "buildFilterGroups a = None" by contradiction
  next
    show "\<exists>cs. buildFilterGroups a = Some [\<lparr>groupType = ''and'', filters = cs\<rparr>]
           \<and> map dimension cs
               = filter (\<lambda>d. simple_filter a d \<noteq> None) [''page'', ''query'', ''country'', ''device'']
           \<and> (\<forall>c\<in>set cs. simple_filter a (dimension c) = Some (expression c)
                \<and> operator c = (if dimension c = ''country'' \<or> dimension c = ''device''
                                 then ''equals'' else operator_name (filterOperator a)))"
      by (rule ex)
  qed
qed

theorem filter_groups_shape_witness:
  "(\<forall>d. simple_filter no_filter_args d = None) \<and> buildFilterGroups no_filter_args = None
   \<and> (\<exists>d. simple_filter blog_filter_args d \<noteq> None)
   \<and> (\<exists>cs. buildFilterGroups blog_filter_args = Some [\<lparr>groupType = ''and'', filters = cs\<rparr>]
        \<and> map dimension cs = [''page'', ''query'', ''country'', ''device'']
        \<and> map operator cs = [''contains'', ''contains'', ''equals'', ''equals''])"
proof -
  have none: "\<forall>d. simple_filter no_filter_args d = None"
    by (simp add: simple_filter_def no_filter_args_def nonempty_def)
  have some: "\<exists>d. simple_filter blog_filter_args d \<noteq> None"
    by (rule exI [of _ "''page''"]) (simp add: simple_filter_def blog_filter_args_def nonempty_def)
  have run: "buildFilterGroups blog_filter_args = Some [\<lparr>groupType = ''and'', filters =
      [\<lparr>dimension = ''page'', operator = ''contains'', expression = ''/blog''\<rparr>,
       \<lparr>dimension = ''query'', operator = ''contains'', expression = ''shoes''\<rparr>,
       \<lparr>dimension = ''country'', operator = ''equals'', expression = ''USA''\<rparr>,
       \<lparr>dimension = ''device'', operator = ''equals'', expression = ''MOBILE''\<rparr>]\<rparr>]"
    by (simp add: buildFilterGroups_def blog_filter_args_def truthy_def nullish_def)
  from mp [OF conjunct2 [OF filter_groups_shape [of blog_filter_args]] some] obtain cs where
    cs: "buildFilterGroups blog_filter_args = Some [\<lparr>groupType = ''and'', filters = cs\<rparr>]"
    by (elim exE conjE)
  from cs run have e: "cs =
      [\<lparr>dimension = ''page'', operator = ''contains'', expression = ''/blog''\<rparr>,
       \<lparr>dimension = ''query'', operator = ''contains'', expression = ''shoes''\<rparr>,
       \<lparr>dimension = ''country'', operator = ''equals'', expression = ''USA''\<rparr>,
       \<lparr>dimension = ''device'', operator = ''equals'', expression = ''MOBILE''\<rparr>]"
    by simp
  have "map dimension cs = [''page'', ''query'', ''country'', ''device'']
      \<and> map operator cs = [''contains'', ''contains'', ''equals'', ''equals'']"
    unfolding e by simp
  with cs have built: "\<exists>cs. buildFilterGroups blog_filter_args
        = Some [\<lparr>groupType = ''and'', filters = cs\<rparr>]
      \<and> map dimension cs = [''page'', ''query'', ''country'', ''device'']
      \<and> map operator cs = [''contains'', ''contains'', ''equals'', ''equals'']"
    by (intro exI [of _ cs]) simp
  have "buildFilterGroups no_filter_args = None"
    using none conjunct1 [OF filter_groups_shape [of no_filter_args]] by (rule rev_mp)
  with none some built show ?thesis by (intro conjI)
qed

text \<open>
  A page filter that is given as the empty string is present in the arguments, and yet
  no filter group is built: \<open>if (args.pageFilter)\<close> takes the empty string for absent.
\<close>

theorem filter_groups_blank_counterexample:
  "pageFilter blank_page_args \<noteq> None \<and> buildFilterGroups blank_page_args = None"
  by (simp add: blank_page_args_def buildFilterGroups_def truthy_def)

section \<open>Properties of the permission fallback\<close>

lemma permission_error_iff:
  "permission_error err \<longleftrightarrow>
     (\<exists>m. err = JsError m \<and> (str_includes (toLowerCase m) ''permission''
                              \<or> str_includes (toLowerCase m) ''403''))"
  by (cases err) (simp_all add: permission_error_def Let_def)

lemma searchAnalytics_cached:
  assumes "cachedAuthClient this = Some client"
  shows "searchAnalytics env siteUrl body (this, w) =
     (case withPermissionFallback (searchanalytics_query env client siteUrl body)
             (searchanalytics_query env client (normalizeUrl env siteUrl) body)
             ''searchAnalytics'' w of
        (result, w') \<Rightarrow> (result, (this, w')))"
  using assms by (simp add: searchAnalytics_def getWebmasters_def getAuthClient_def)

text \<open>
  C8: when the primary call throws an \<open>Error\<close> whose lower-cased message contains
  \<open>permission\<close> or \<open>403\<close>, the fallback call runs exactly once, from the world that the
  primary call left, and its outcome, a value or a throw, is the outcome of the whole,
  unwrapped and without another attempt. When the primary call throws anything else, the
  fallback does not run, and the throw is an \<open>Error\<close> whose message is the call context
  and the original message. In \<open>searchAnalytics\<close> the fallback is the same query on the
  normalized site.
\<close>

theorem permission_fallback:
  "(permission_error err \<longleftrightarrow>
      (\<exists>m. err = JsError m \<and> (str_includes (toLowerCase m) ''permission''
                               \<or> str_includes (toLowerCase m) ''403'')))
   \<and> (operation w = (Inl err, w1) \<and> permission_error err
        \<longrightarrow> withPermissionFallback (uncounted operation) (counted fallbackOperation) ctx (w, 0)
             = (fst (fallbackOperation w1), (snd (fallbackOperation w1), 1)))
   \<and> (operation w = (Inl err, w1) \<and> \<not> permission_error err
        \<longrightarrow> withPermissionFallback (uncounted operation) (counted fallbackOperation) ctx (w, 0)
             = (Inl (JsError (''[GSC] '' @ ctx @ '' failed: '' @ error_text err)), (w1, 0)))
   \<and> (cachedAuthClient this = Some client
        \<and> searchanalytics_query env client siteUrl body v = (Inl err, v1) \<and> permission_error err
        \<longrightarrow> searchAnalytics env siteUrl body (this, v)
             = (case searchanalytics_query env client (normalizeUrl env siteUrl) body v1 of
                  (result, v2) \<Rightarrow> (result, (this, v2))))"
proof (intro conjI impI)
  show "permission_error err \<longleftrightarrow>
      (\<exists>m. err = JsError m \<and> (str_includes (toLowerCase m) ''permission''
                               \<or> str_includes (toLowerCase m) ''403''))"
    by (rule permission_error_iff)
next
  assume a: "operation w = (Inl err, w1) \<and> permission_error err"
  then have "uncounted operation (w, 0) = (Inl err, (w1, 0))"
    by (simp add: uncounted_def)
  moreover have "counted fallbackOperation (w1, 0)
      = (fst (fallbackOperation w1), (snd (fallbackOperation w1), 1))"
    by (simp add: counted_def split: prod.splits)
  ultimately show "withPermissionFallback (uncounted operation) (counted fallbackOperation)
      ctx (w, 0) = (fst (fallbackOperation w1), (snd (fallbackOperation w1), 1))"
    using a by (simp add: withPermissionFallback_def)
next
  assume a: "operation w = (Inl err, w1) \<and> \<not> permission_error err"
  then have "uncounted operation (w, 0) = (Inl err, (w1, 0))"
    by (simp add: uncounted_def)
  then show "withPermissionFallback (uncounted operation) (counted fallbackOperation)
      ctx (w, 0) = (Inl (JsError (''[GSC] '' @ ctx @ '' failed: '' @ error_text err)), (w1, 0))"
    using a by (simp add: withPermissionFallback_def)
next
  assume a: "cachedAuthClient this = Some client
        \<and> searchanalytics_query env client siteUrl body v = (Inl err, v1) \<and> permission_error err"
  then have "withPermissionFallback (searchanalytics_query env client siteUrl body)
             (searchanalytics_query env client (normalizeUrl env siteUrl) body)
             ''searchAnalytics'' v
      = searchanalytics_query env client (normalizeUrl env siteUrl) body v1"
    by (simp add: withPermissionFallback_def)
  with a show "searchAnalytics env siteUrl body (this, v)
             = (case searchanalytics_query env client (normalizeUrl env siteUrl) body v1 of
                  (result, v2) \<Rightarrow> (result, (this, v2)))"
    by (simp add: searchAnalytics_cached)
qed

theorem permission_fallback_witness:
  "withPermissionFallback (uncounted denied_call) (counted retry_ok) ''searchAnalytics'' (0, 0)
     = (Inr 42, (11, 1))
   \<and> withPermissionFallback (uncounted denied_call) (counted retry_denied) ''searchAnalytics'' (0, 0)
     = (Inl (JsError ''403 Forbidden''), (11, 1))
   \<and> withPermissionFallback (uncounted quota_call) (counted retry_ok) ''searchAnalytics'' (0, 0)
     = (Inl (JsError ''[GSC] searchAnalytics failed: Quota exceeded''), (1, 0))
   \<and> searchAnalytics (recorded strict_env) ''https://www.example.com/'' page_request
        (some_service\<lparr>cachedAuthClient := Some (AuthClient 0)\<rparr>, ((), []))
     = (Inr \<lparr>data_rows = Some [], data_responseAggregationType = None\<rparr>,
        (some_service\<lparr>cachedAuthClient := Some (AuthClient 0)\<rparr>,
         ((), [(''https://www.example.com/'', page_request),
               (''sc-domain:www.example.com'', page_request)])))"
proof -
  have d: "denied_call 0 = (Inl (JsError ''User does not have sufficient PERMISSION for site''), 1)"
    and q: "quota_call 0 = (Inl (JsError ''Quota exceeded''), 1)"
    by (simp_all add: denied_call_def quota_call_def)
  have "str_includes (toLowerCase ''User does not have sufficient PERMISSION for site'')
      ''permission''"
    by code_simp
  then have yes: "permission_error (JsError ''User does not have sufficient PERMISSION for site'')"
    using conjunct1 [OF permission_fallback
        [where err = "JsError ''User does not have sufficient PERMISSION for site''"]]
    by simp
  have "\<not> (str_includes (toLowerCase ''Quota exceeded'') ''permission''
      \<or> str_includes (toLowerCase ''Quota exceeded'') ''403'')"
    by code_simp
  then have no: "\<not> permission_error (JsError ''Quota exceeded'')"
    using conjunct1 [OF permission_fallback [where err = "JsError ''Quota exceeded''"]]
    by simp
  have r1: "retry_ok 1 = (Inr 42, 11)" and r2: "retry_denied 1 = (Inl (JsError ''403 Forbidden''), 11)"
    by (simp_all add: retry_ok_def retry_denied_def)
  have a: "withPermissionFallback (uncounted denied_call) (counted retry_ok)
      ''searchAnalytics'' (0, 0) = (Inr 42, (11, 1))"
    using mp [OF conjunct1 [OF conjunct2 [OF permission_fallback
        [where operation = denied_call and w = 0 and fallbackOperation = retry_ok
          and ctx = "''searchAnalytics''"]]] conjI [OF d yes]] r1
    by simp
  have b: "withPermissionFallback (uncounted denied_call) (counted retry_denied)
      ''searchAnalytics'' (0, 0) = (Inl (JsError ''403 Forbidden''), (11, 1))"
    using mp [OF conjunct1 [OF conjunct2 [OF permission_fallback
        [where operation = denied_call and w = 0 and fallbackOperation = retry_denied
          and ctx = "''searchAnalytics''"]]] conjI [OF d yes]] r2
    by simp
  have c: "withPermissionFallback (uncounted quota_call) (counted retry_ok)
      ''searchAnalytics'' (0, 0)
      = (Inl (JsError ''[GSC] searchAnalytics failed: Quota exceeded''), (1, 0))"
    using mp [OF conjunct1 [OF conjunct2 [OF conjunct2 [OF permission_fallback
        [where operation = quota_call and w = 0 and fallbackOperation = retry_ok
          and ctx = "''searchAnalytics''"]]]] conjI [OF q no]]
    by (simp add: error_text_def)
  have "str_includes (toLowerCase ''User does not have sufficient permission for site'')
      ''permission''"
    by code_simp
  then have yes2: "permission_error (JsError ''User does not have sufficient permission for site'')"
    by (simp add: permission_error_iff)
  have n: "normalizeUrl (recorded strict_env) ''https://www.example.com/''
      = ''sc-domain:www.example.com''"
    by (simp add: normalizeUrl_def recorded_def strict_env_def startsWith_def)
  have first: "searchanalytics_query (recorded strict_env) (AuthClient 0)
      ''https://www.example.com/'' page_request ((), [])
      = (Inl (JsError ''User does not have sufficient permission for site''),
         ((), [(''https://www.example.com/'', page_request)]))"
    by (simp add: recorded_def strict_env_def startsWith_def)
  have second: "searchanalytics_query (recorded strict_env) (AuthClient 0)
      ''sc-domain:www.example.com'' page_request ((), [(''https://www.example.com/'', page_request)])
      = (Inr \<lparr>data_rows = Some [], data_responseAggregationType = None\<rparr>,
         ((), [(''https://www.example.com/'', page_request),
               (''sc-domain:www.example.com'', page_request)]))"
    by (simp add: recorded_def strict_env_def startsWith_def)
  have cached: "cachedAuthClient (some_service\<lparr>cachedAuthClient := Some (AuthClient 0)\<rparr>)
      = Some (AuthClient 0)"
    by simp
  have e: "searchAnalytics (recorded strict_env) ''https://www.example.com/'' page_request
        (some_service\<lparr>cachedAuthClient := Some (AuthClient 0)\<rparr>, ((), []))
     = (Inr \<lparr>data_rows = Some [], data_responseAggregationType = None\<rparr>,
        (some_service\<lparr>cachedAuthClient := Some (AuthClient 0)\<rparr>,
         ((), [(''https://www.example.com/'', page_request),
               (''sc-domain:www.example.com'', page_request)])))"
    using mp [OF conjunct2 [OF conjunct2 [OF conjunct2 [OF permission_fallback
        [where this = "some_service\<lparr>cachedAuthClient := Some (AuthClient 0)\<rparr>"
          and env = "recorded strict_env"]]]] conjI [OF cached conjI [OF first yes2]]]
    by (simp add: n second)
  from a b c e show ?thesis by (intro conjI)
qed

section \<open>Properties of the enhanced search analytics\<close>

lemma recorded_query_calls:
  assumes "searchanalytics_query (recorded env) client site req (w, calls) = (r, (w', calls'))"
  shows "calls' = calls @ [(site, req)]"
  using assms by (auto simp: recorded_def split: prod.splits)

lemma recorded_getClient_calls:
  assumes "getClient (recorded env) (w, calls) = (r, (w', calls'))"
  shows "calls' = calls"
  using assms by (auto simp: recorded_def split: prod.splits)

lemma fallback_calls:
  assumes "withPermissionFallback (searchanalytics_query (recorded env) client s1 req)
             (searchanalytics_query (recorded env) client s2 req) ctx (w, calls)
           = (r, (w', calls'))"
  shows "\<exists>extra. calls' = calls @ extra \<and> (\<forall>c\<in>set extra. snd c = req)"
proof -
  obtain r1 w1 c1 where p: "searchanalytics_query (recorded env) client s1 req (w, calls)
      = (r1, (w1, c1))"
    by (metis prod.exhaust)
  have c1: "c1 = calls @ [(s1, req)]" using p by (rule recorded_query_calls)
  consider (ok) v where "r1 = Inr v" "calls' = c1"
    | (wrapped) "calls' = c1"
    | (retry) "searchanalytics_query (recorded env) client s2 req (w1, c1) = (r, (w', calls'))"
    using assms p
    by (cases r1) (auto simp: withPermissionFallback_def Let_def split: if_splits)
  then show ?thesis
  proof cases
    case ok
    with c1 show ?thesis by simp
  next
    case wrapped
    with c1 show ?thesis by simp
  next
    case retry
    then have "calls' = c1 @ [(s2, req)]" by (rule recorded_query_calls)
    with c1 show ?thesis by simp
  qed
qed

lemma searchAnalytics_calls:
  assumes "searchAnalytics (recorded env) site req (this, (w, calls)) = (r, (this', (w', calls')))"
  shows "\<exists>extra. calls' = calls @ extra \<and> (\<forall>c\<in>set extra. snd c = req)"
proof -
  obtain g this1 w1 c1 where g: "getWebmasters (recorded env) (this, (w, calls))
      = (g, (this1, (w1, c1)))"
    by (metis prod.exhaust)
  have c1: "c1 = calls"
  proof (cases "cachedAuthClient this")
    case None
    obtain rc wc cc where gc: "getClient (recorded env) (w, calls) = (rc, (wc, cc))"
      by (metis prod.exhaust)
    have "cc = calls" using gc by (rule recorded_getClient_calls)
    with g gc None show ?thesis
      by (cases rc) (auto simp: getWebmasters_def getAuthClient_def)
  next
    case (Some client)
    with g show ?thesis by (simp add: getWebmasters_def getAuthClient_def)
  qed
  show ?thesis
  proof (cases g)
    case (Inl e)
    with assms g c1 show ?thesis by (simp add: searchAnalytics_def)
  next
    case (Inr client)
    obtain r2 w2 c2 where f: "withPermissionFallback
        (searchanalytics_query (recorded env) client site req)
        (searchanalytics_query (recorded env) client (normalizeUrl (recorded env) site) req)
        ''searchAnalytics'' (w1, c1) = (r2, (w2, c2))"
      by (metis prod.exhaust)
    from fallback_calls [OF f] obtain extra where "c2 = c1 @ extra" "\<forall>c\<in>set extra. snd c = req"
      by blast
    moreover have "calls' = c2"
      using assms g Inr f by (simp add: searchAnalytics_def)
    ultimately show ?thesis using c1 by simp
  qed
qed

lemma enhanced_calls:
  assumes "enhancedSearchAnalytics (recorded env) site (Some body) options (this, (w, calls))
           = (r, (this', (w', calls')))"
  shows "\<exists>extra. calls' = calls @ extra
           \<and> (\<forall>c\<in>set extra. snd c = enhancedRequestBody body options)"
proof -
  obtain r1 this1 w1 c1 where s: "searchAnalytics (recorded env) site
      (enhancedRequestBody body options) (this, (w, calls)) = (r1, (this1, (w1, c1)))"
    by (metis prod.exhaust)
  from searchAnalytics_calls [OF s] obtain extra where
    e: "c1 = calls @ extra" "\<forall>c\<in>set extra. snd c = enhancedRequestBody body options"
    by blast
  have "calls' = c1"
    using assms s
    by (cases r1) (auto simp: enhancedSearchAnalytics_def Let_def split: if_splits sum.splits)
  with e show ?thesis by simp
qed

lemma enhanced_errors:
  assumes "enableQuickWins options \<noteq> Some True"
  shows "isl (fst (enhancedSearchAnalytics env site (Some body) options st))
       = isl (fst (searchAnalytics env site (enhancedRequestBody body options) st))"
proof -
  obtain r1 this1 w1 where s: "searchAnalytics env site (enhancedRequestBody body options) st
      = (r1, (this1, w1))"
    by (metis prod.exhaust)
  show ?thesis
    using assms s by (cases r1) (simp_all add: enhancedSearchAnalytics_def Let_def)
qed

text \<open>
  C5: when the pattern is a non-empty string and the dimensions include \<open>query\<close>, the
  request that goes upstream is the caller's request with one more filter group after
  the groups it already had, holding the single clause \<open>includingRegex\<close> on \<open>query\<close> with the
  pattern; the groups and clauses that were there stay as they were. In every other case,
  a pattern that is absent or empty, or dimensions without \<open>query\<close>, the request is
  unchanged. Every request that reaches the query endpoint during the call is this
  request, and with detection off the call throws exactly when the upstream call does.
\<close>

theorem pattern_filter_additive:
  "(truthy (regexFilter options) \<and> (\<exists>ds. dimensions body = Some ds \<and> ''query'' \<in> set ds)
      \<longrightarrow> (\<exists>p. regexFilter options = Some p
             \<and> enhancedRequestBody body options = body\<lparr>dimensionFilterGroups :=
                  Some (nullish (dimensionFilterGroups body) []
                        @ [\<lparr>groupType = ''and'',
                             filters = [\<lparr>dimension = ''query'', operator = ''includingRegex'',
                                          expression = p\<rparr>]\<rparr>])\<rparr>))
   \<and> (\<not> (truthy (regexFilter options) \<and> (\<exists>ds. dimensions body = Some ds \<and> ''query'' \<in> set ds))
      \<longrightarrow> enhancedRequestBody body options = body)
   \<and> (\<forall>r this' w' calls'.
        enhancedSearchAnalytics (recorded env) site (Some body) options (this, (w, []))
          = (r, (this', (w', calls')))
        \<longrightarrow> (\<forall>c\<in>set calls'. snd c = enhancedRequestBody body options))
   \<and> (enableQuickWins options \<noteq> Some True
      \<longrightarrow> isl (fst (enhancedSearchAnalytics env' site (Some body) options st))
          = isl (fst (searchAnalytics env' site (enhancedRequestBody body options) st)))"
proof (intro conjI impI allI)
  assume a: "truthy (regexFilter options) \<and> (\<exists>ds. dimensions body = Some ds \<and> ''query'' \<in> set ds)"
  then obtain p where p: "regexFilter options = Some p"
    by (auto simp: truthy_def split: option.splits)
  with a have "enhancedRequestBody body options = body\<lparr>dimensionFilterGroups :=
                  Some (nullish (dimensionFilterGroups body) []
                        @ [\<lparr>groupType = ''and'',
                             filters = [\<lparr>dimension = ''query'', operator = ''includingRegex'',
                                          expression = p\<rparr>]\<rparr>])\<rparr>"
    by (auto simp: enhancedRequestBody_def nullish_def)
  with p show "\<exists>p. regexFilter options = Some p
             \<and> enhancedRequestBody body options = body\<lparr>dimensionFilterGroups :=
                  Some (nullish (dimensionFilterGroups body) []
                        @ [\<lparr>groupType = ''and'',
                             filters = [\<lparr>dimension = ''query'', operator = ''includingRegex'',
                                          expression = p\<rparr>]\<rparr>])\<rparr>"
    by blast
next
  assume "\<not> (truthy (regexFilter options) \<and> (\<exists>ds. dimensions body = Some ds \<and> ''query'' \<in> set ds))"
  then show "enhancedRequestBody body options = body"
    by (auto simp: enhancedRequestBody_def split: option.splits)
next
  fix r this' w' calls'
  assume "enhancedSearchAnalytics (recorded env) site (Some body) options (this, (w, []))
          = (r, (this', (w', calls')))"
  from enhanced_calls [OF this] show "\<forall>c\<in>set calls'. snd c = enhancedRequestBody body options"
    by simp
next
  assume "enableQuickWins options \<noteq> Some True"
  then show "isl (fst (enhancedSearchAnalytics env' site (Some body) options st))
          = isl (fst (searchAnalytics env' site (enhancedRequestBody body options) st))"
    by (rule enhanced_errors)
qed

theorem pattern_filter_additive_witness:
  "truthy (regexFilter pattern_options) \<and> dimensions query_request = Some [''query'']
   \<and> enhancedRequestBody query_request pattern_options
       = query_request\<lparr>dimensionFilterGroups := Some
           [\<lparr>groupType = ''and'',
              filters = [\<lparr>dimension = ''country'', operator = ''equals'', expression = ''USA''\<rparr>]\<rparr>,
            \<lparr>groupType = ''and'',
              filters = [\<lparr>dimension = ''query'', operator = ''includingRegex'',
                           expression = ''shoes|boots''\<rparr>]\<rparr>]\<rparr>
   \<and> dimensions page_request = Some [''page'']
   \<and> enhancedRequestBody page_request pattern_options = page_request
   \<and> enableQuickWins pattern_options \<noteq> Some True
   \<and> \<not> isl (fst (enhancedSearchAnalytics (recorded quiet_env) ''sc-domain:example.com''
                    (Some page_request) pattern_options (some_service, ((), []))))
   \<and> map snd (snd (snd (snd (enhancedSearchAnalytics (recorded quiet_env)
           ''sc-domain:example.com'' (Some page_request) pattern_options
           (some_service, ((), [])))))) = [page_request]"
proof -
  have t: "truthy (regexFilter pattern_options)"
    and p: "regexFilter pattern_options = Some ''shoes|boots''"
    and q: "enableQuickWins pattern_options \<noteq> Some True"
    by (simp_all add: pattern_options_def truthy_def)
  have dq: "dimensions query_request = Some [''query'']"
    and gq: "nullish (dimensionFilterGroups query_request) []
      = [\<lparr>groupType = ''and'',
           filters = [\<lparr>dimension = ''country'', operator = ''equals'', expression = ''USA''\<rparr>]\<rparr>]"
    by (simp_all add: query_request_def nullish_def)
  have dp: "dimensions page_request = Some [''page'']"
    by (simp add: page_request_def)
  have applies: "truthy (regexFilter pattern_options)
      \<and> (\<exists>ds. dimensions query_request = Some ds \<and> ''query'' \<in> set ds)"
    using t dq by simp
  have ignored: "\<not> (truthy (regexFilter pattern_options)
      \<and> (\<exists>ds. dimensions page_request = Some ds \<and> ''query'' \<in> set ds))"
    using dp by simp
  note on_query = pattern_filter_additive [of pattern_options query_request quiet_env
      "''sc-domain:example.com''" some_service "()" "recorded quiet_env" "(some_service, ((), []))"]
  note on_page = pattern_filter_additive [of pattern_options page_request quiet_env
      "''sc-domain:example.com''" some_service "()" "recorded quiet_env" "(some_service, ((), []))"]
  have a: "enhancedRequestBody query_request pattern_options
       = query_request\<lparr>dimensionFilterGroups := Some
           [\<lparr>groupType = ''and'',
              filters = [\<lparr>dimension = ''country'', operator = ''equals'', expression = ''USA''\<rparr>]\<rparr>,
            \<lparr>groupType = ''and'',
              filters = [\<lparr>dimension = ''query'', operator = ''includingRegex'',
                           expression = ''shoes|boots''\<rparr>]\<rparr>]\<rparr>"
    using mp [OF conjunct1 [OF on_query] applies] p gq by simp
  have b: "enhancedRequestBody page_request pattern_options = page_request"
    using mp [OF conjunct1 [OF conjunct2 [OF on_page]] ignored] .
  have s: "searchAnalytics (recorded quiet_env) ''sc-domain:example.com'' page_request
      (some_service, ((), []))
    = (Inr \<lparr>data_rows = Some [example_row], data_responseAggregationType = None\<rparr>,
       (some_service\<lparr>cachedAuthClient := Some (AuthClient 0)\<rparr>,
        ((), [(''sc-domain:example.com'', page_request)])))"
    by (simp add: searchAnalytics_def getWebmasters_def getAuthClient_def recorded_def
        quiet_env_def some_service_def withPermissionFallback_def)
  have c: "\<not> isl (fst (enhancedSearchAnalytics (recorded quiet_env) ''sc-domain:example.com''
                    (Some page_request) pattern_options (some_service, ((), []))))"
    using mp [OF conjunct2 [OF conjunct2 [OF conjunct2 [OF on_page]]] q] b s by simp
  have d: "map snd (snd (snd (snd (enhancedSearchAnalytics (recorded quiet_env)
           ''sc-domain:example.com'' (Some page_request) pattern_options
           (some_service, ((), [])))))) = [page_request]"
    using q by (simp add: b enhancedSearchAnalytics_def s nullish_def Let_def)
  from t dq a dp b q c d show ?thesis by (intro conjI)
qed

text \<open>
  A pattern given as the empty string, with \<open>query\<close> among the dimensions: nothing is added
  to the request.
\<close>

theorem pattern_filter_blank_counterexample:
  "regexFilter blank_pattern_options = Some [] \<and> dimensions query_request = Some [''query'']
   \<and> enhancedRequestBody query_request blank_pattern_options = query_request"
  by (simp add: blank_pattern_options_def query_request_def enhancedRequestBody_def truthy_def)

text \<open>
  C1: the metadata field \<open>regexFilterApplied\<close> is meant to say whether the pattern filter
  ran. With a pattern given and the dimensions \<open>page\<close> only, the request goes upstream
  unchanged, without any pattern clause, and the field is \<open>true\<close> all the same: it is
  computed from the pattern alone.
\<close>

theorem regex_flag_without_filter:
  "regexFilter pattern_options = Some ''shoes|boots'' \<and> dimensions page_request = Some [''page'']
   \<and> enhancedRequestBody page_request pattern_options = page_request
   \<and> enhancedSearchAnalytics (recorded quiet_env) ''sc-domain:example.com'' (Some page_request)
       pattern_options (some_service, ((), []))
     = (Inr \<lparr>rows = Some [example_row], responseAggregationType = None, quickWins = None,
              metadata = Some \<lparr>regexFilterApplied = True, quickWinsEnabled = False,
                                md_rowLimit = 1000, totalRows = 1\<rparr>\<rparr>,
        (some_service\<lparr>cachedAuthClient := Some (AuthClient 0)\<rparr>,
         ((), [(''sc-domain:example.com'', page_request)])))"
proof -
  have e: "enhancedRequestBody page_request pattern_options = page_request"
    by (simp add: enhancedRequestBody_def page_request_def pattern_options_def truthy_def)
  have s: "searchAnalytics (recorded quiet_env) ''sc-domain:example.com'' page_request
      (some_service, ((), []))
    = (Inr \<lparr>data_rows = Some [example_row], data_responseAggregationType = None\<rparr>,
       (some_service\<lparr>cachedAuthClient := Some (AuthClient 0)\<rparr>,
        ((), [(''sc-domain:example.com'', page_request)])))"
    by (simp add: searchAnalytics_def getWebmasters_def getAuthClient_def recorded_def
        quiet_env_def some_service_def withPermissionFallback_def)
  have "enhancedSearchAnalytics (recorded quiet_env) ''sc-domain:example.com'' (Some page_request)
       pattern_options (some_service, ((), []))
     = (Inr \<lparr>rows = Some [example_row], responseAggregationType = None, quickWins = None,
              metadata = Some \<lparr>regexFilterApplied = True, quickWinsEnabled = False,
                                md_rowLimit = 1000, totalRows = 1\<rparr>\<rparr>,
        (some_service\<lparr>cachedAuthClient := Some (AuthClient 0)\<rparr>,
         ((), [(''sc-domain:example.com'', page_request)])))"
    by (simp add: e enhancedSearchAnalytics_def s nullish_def Let_def)
      (simp add: pattern_options_def truthy_def page_request_def)
  moreover have "regexFilter pattern_options = Some ''shoes|boots''"
    and "dimensions page_request = Some [''page'']"
    by (simp_all add: pattern_options_def page_request_def)
  ultimately show ?thesis using e by (intro conjI)
qed

end
